theory Spec2Isabelle
  imports Main "HOL-Library.Char_ord"
begin

section \<open>MarkerBasedPredictor: marker-delimited label extraction\<close>

text \<open>
  A shallow embedding of \<^verbatim>\<open>promptolution/predictors/maker_based_predictor.py\<close>.
  Python strings are modelled as \<^typ>\<open>string\<close>. Case conversion is modelled on the
  ASCII letters: a character outside \<open>A..Z\<close>, \<open>a..z\<close> is uncased and is left alone by
  \<open>str.lower\<close>, so the model is exact for ASCII text. Exceptions are values of the type
  \<open>error\<close>; a function that may raise returns \<open>error + 'a\<close>, with \<open>Inl\<close> the exception.
  Assertions are taken to be enabled (the interpreter's default).
\<close>

subsection \<open>Strings: \<open>str.lower\<close>, \<open>str.islower\<close>, \<open>str.join\<close>\<close>

definition is_ascii_upper :: "char \<Rightarrow> bool" where
  "is_ascii_upper c = (CHR ''A'' \<le> c \<and> c \<le> CHR ''Z'')"

definition is_ascii_lower :: "char \<Rightarrow> bool" where
  "is_ascii_lower c = (CHR ''a'' \<le> c \<and> c \<le> CHR ''z'')"

text \<open>A cased character is a letter that has an upper and a lower form.\<close>

definition is_cased :: "char \<Rightarrow> bool" where
  "is_cased c = (is_ascii_upper c \<or> is_ascii_lower c)"

definition lower_char :: "char \<Rightarrow> char" where
  "lower_char c = (if is_ascii_upper c then char_of (of_char c + (32::nat)) else c)"

text \<open>\<^verbatim>\<open>s.lower()\<close>\<close>

definition str_lower :: "string \<Rightarrow> string" where
  "str_lower s = map lower_char s"

text \<open>
  \<^verbatim>\<open>s.islower()\<close>: true when every cased character of \<open>s\<close> is lowercase and \<open>s\<close> has at
  least one cased character.
\<close>

definition str_islower :: "string \<Rightarrow> bool" where
  "str_islower s = (list_ex is_ascii_lower s \<and> list_all (\<lambda>c. \<not> is_ascii_upper c) s)"

text \<open>\<^verbatim>\<open>sep.join(xs)\<close>\<close>

fun join :: "string \<Rightarrow> string list \<Rightarrow> string" where
  "join sep [] = []"
| "join sep [x] = x"
| "join sep (x # y # ys) = x @ sep @ join sep (y # ys)"

subsection \<open>The predictor object and its exceptions\<close>

text \<open>
  \<open>AssertionError\<close> carries the message of the failed \<^verbatim>\<open>assert\<close>; \<open>IndexError\<close> is raised by
  \<^verbatim>\<open>self.classes[0]\<close> on an empty list; \<open>ExtractorError\<close> stands for any exception the
  tag-extraction function raises.
\<close>

datatype error = AssertionError string | IndexError | ExtractorError

text \<open>The attributes that \<^verbatim>\<open>__init__\<close> assigns. \<open>classes\<close> is \<open>None\<close> in open mode.\<close>

record predictor =
  classes :: "string list option"
  begin_marker :: string
  end_marker :: string
  extraction_description :: string

text \<open>
  \<^verbatim>\<open>extract_from_tag\<close> is imported from \<^verbatim>\<open>promptolution.utils.formatting\<close>, which is not
  among the sources. The operations below take it as a parameter: a function of the text
  and the two markers that returns a string or raises.
\<close>

type_synonym extractor = "string \<Rightarrow> string \<Rightarrow> string \<Rightarrow> error + string"

definition default_begin_marker :: string where
  "default_begin_marker = ''<final_answer>''"

definition default_end_marker :: string where
  "default_end_marker = ''</final_answer>''"

subsection \<open>\<^verbatim>\<open>MarkerBasedPredictor.__init__\<close>\<close>

definition closed_description :: "string list \<Rightarrow> string \<Rightarrow> string \<Rightarrow> string" where
  "closed_description cs bm em =
     ''The task is to classify the texts into one of those classes: '' @ join '', '' cs @ ''.''
     @ ''The class label is extracted from the text that are between these markers: ''
     @ bm @ '' and '' @ em @ ''.''"

definition open_description :: "string \<Rightarrow> string \<Rightarrow> string" where
  "open_description bm em =
     ''The class label is extracted from the text that are between these markers: ''
     @ bm @ '' and '' @ em @ ''.''"

text \<open>
  The constructor. \<open>super_init\<close> is the call \<^verbatim>\<open>super().__init__(llm, config)\<close> of the base
  class, which is not among the sources: it receives the object as the constructor's own
  body has left it and returns the finished object, or raises. The assertion comes before
  it, so a rejected class list never reaches the base class.
\<close>

definition init ::
  "(predictor \<Rightarrow> error + predictor) \<Rightarrow> string list option \<Rightarrow> string \<Rightarrow> string \<Rightarrow> error + predictor"
where
  "init super_init cls bm em =
     (case cls of
        Some cs \<Rightarrow>
          if \<not> list_all str_islower cs
          then Inl (AssertionError ''Class labels should be lowercase.'')
          else super_init \<lparr>classes = cls, begin_marker = bm, end_marker = em,
                 extraction_description = closed_description cs bm em\<rparr>
      | None \<Rightarrow>
          super_init \<lparr>classes = cls, begin_marker = bm, end_marker = em,
            extraction_description = open_description bm em\<rparr>)"

subsection \<open>\<^verbatim>\<open>MarkerBasedPredictor._extract_preds\<close>\<close>

text \<open>\<^verbatim>\<open>xs[0]\<close>: the first element, or \<open>IndexError\<close> on the empty list.\<close>

definition getitem0 :: "'a list \<Rightarrow> error + 'a" where
  "getitem0 xs = (case xs of [] \<Rightarrow> Inl IndexError | x # _ \<Rightarrow> Inr x)"

text \<open>
  The normalisation of one extracted span: \<^verbatim>\<open>.lower()\<close>, then
  \<^verbatim>\<open>if self.classes is not None and pred not in self.classes: pred = self.classes[0]\<close>.
\<close>

definition normalize_label :: "predictor \<Rightarrow> string \<Rightarrow> error + string" where
  "normalize_label self extracted =
     (let pred = str_lower extracted in
      case classes self of
        None \<Rightarrow> Inr pred
      | Some cs \<Rightarrow> if pred \<notin> set cs then getitem0 cs else Inr pred)"

text \<open>The body of the loop for one raw output: extraction, then normalisation.\<close>

definition extract_label :: "extractor \<Rightarrow> predictor \<Rightarrow> string \<Rightarrow> error + string" where
  "extract_label ext self pred =
     (case ext pred (begin_marker self) (end_marker self) of
        Inl e \<Rightarrow> Inl e
      | Inr extracted \<Rightarrow> normalize_label self extracted)"

text \<open>
  The \<^verbatim>\<open>for\<close> loop, with the list \<open>result\<close> that it appends to. An exception in one
  iteration ends the loop and the call.
\<close>

fun extract_loop :: "extractor \<Rightarrow> predictor \<Rightarrow> string list \<Rightarrow> string list \<Rightarrow> error + string list" where
  "extract_loop ext self [] result = Inr result"
| "extract_loop ext self (pred # preds) result =
     (case extract_label ext self pred of
        Inl e \<Rightarrow> Inl e
      | Inr label \<Rightarrow> extract_loop ext self preds (result @ [label]))"

definition extract_preds :: "extractor \<Rightarrow> predictor \<Rightarrow> string list \<Rightarrow> error + string list" where
  "extract_preds ext self preds = extract_loop ext self preds []"

text \<open>
  A valid configuration: no class list, or a non-empty class list whose entries all pass
  \<^verbatim>\<open>islower\<close>.
\<close>

definition valid_config :: "predictor \<Rightarrow> bool" where
  "valid_config self =
     (case classes self of
        None \<Rightarrow> True
      | Some cs \<Rightarrow> cs \<noteq> [] \<and> list_all str_islower cs)"

text \<open>A string of whitespace characters only (space, tab, newline, carriage return).\<close>

definition is_space :: "char \<Rightarrow> bool" where
  "is_space c = (c \<in> set [CHR '' '', CHR 0x09, CHR 0x0A, CHR 0x0D])"

subsection \<open>The method on the object store\<close>

text \<open>
  To state what a call changes, the method is also modelled on a store of objects. A
  reference is an index into the store. The predictor instance holds its class list by
  reference, since a Python list is a mutable object that the instance shares with whoever
  passed it to the constructor; strings are immutable and are held by value.
\<close>

type_synonym addr = nat

record instance_attrs =
  classes_ref :: "addr option"
  begin_marker_attr :: string
  end_marker_attr :: string
  extraction_description_attr :: string

datatype obj = ListObj "string list" | Instance instance_attrs

type_synonym heap = "obj list"

text \<open>
  An exception on the store is an exception of the method (\<open>Raised\<close>), or \<open>WrongObject\<close>:
  the error of using a reference that does not hold an object of the expected kind.
\<close>

datatype heap_error = Raised error | WrongObject

definition raised :: "error + 'a \<Rightarrow> heap_error + 'a" where
  "raised r = (case r of Inl e \<Rightarrow> Inl (Raised e) | Inr x \<Rightarrow> Inr x)"

definition get_list :: "heap \<Rightarrow> addr \<Rightarrow> heap_error + string list" where
  "get_list h a =
     (if a < length h
      then (case h ! a of ListObj xs \<Rightarrow> Inr xs | Instance _ \<Rightarrow> Inl WrongObject)
      else Inl WrongObject)"

definition get_attrs :: "heap \<Rightarrow> addr \<Rightarrow> heap_error + instance_attrs" where
  "get_attrs h a =
     (if a < length h
      then (case h ! a of Instance attrs \<Rightarrow> Inr attrs | ListObj _ \<Rightarrow> Inl WrongObject)
      else Inl WrongObject)"

text \<open>\<^verbatim>\<open>result = []\<close>: a new list object, at a reference that was not in use.\<close>

definition new_list :: "heap \<Rightarrow> addr \<times> heap" where
  "new_list h = (length h, h @ [ListObj []])"

text \<open>\<^verbatim>\<open>xs.append(x)\<close>: the list object at the reference is changed in place.\<close>

definition list_append :: "heap \<Rightarrow> addr \<Rightarrow> string \<Rightarrow> heap_error + heap" where
  "list_append h a x =
     (case get_list h a of
        Inl e \<Rightarrow> Inl e
      | Inr xs \<Rightarrow> Inr (h[a := ListObj (xs @ [x])]))"

text \<open>
  \<^verbatim>\<open>if self.classes is not None and pred not in self.classes: pred = self.classes[0]\<close>,
  reading \<open>self.classes\<close> from the store; the value is the new \<open>pred\<close>.
\<close>

definition class_fallback :: "heap \<Rightarrow> addr \<Rightarrow> string \<Rightarrow> heap_error + string" where
  "class_fallback h self pred =
     (case get_attrs h self of
        Inl e \<Rightarrow> Inl e
      | Inr attrs \<Rightarrow>
          (case classes_ref attrs of
             None \<Rightarrow> Inr pred
           | Some r \<Rightarrow>
               (case get_list h r of
                  Inl e \<Rightarrow> Inl e
                | Inr cs \<Rightarrow> if pred \<notin> set cs then raised (getitem0 cs) else Inr pred)))"

text \<open>
  One iteration: the three statements of the loop body, on the store. The outcome is an
  exception or normal completion, with the store as the iteration left it. The tag-extraction
  function is a pure function of its three arguments, as the specification requires.
\<close>

definition loop_body ::
  "extractor \<Rightarrow> addr \<Rightarrow> addr \<Rightarrow> string \<Rightarrow> heap \<Rightarrow> (heap_error + unit) \<times> heap"
where
  "loop_body ext self result pred h =
     (case get_attrs h self of
        Inl e \<Rightarrow> (Inl e, h)
      | Inr attrs \<Rightarrow>
          (case ext pred (begin_marker_attr attrs) (end_marker_attr attrs) of
             Inl e \<Rightarrow> (Inl (Raised e), h)
           | Inr extracted \<Rightarrow>
               (case class_fallback h self (str_lower extracted) of
                  Inl e \<Rightarrow> (Inl e, h)
                | Inr label \<Rightarrow>
                    (case list_append h result label of
                       Inl e \<Rightarrow> (Inl e, h)
                     | Inr h' \<Rightarrow> (Inr (), h')))))"

text \<open>
  \<^verbatim>\<open>for pred in preds\<close>: the list iterator keeps an index \<open>i\<close> and, before each iteration,
  reads the list object behind \<open>preds\<close> as it then is. The loop ends when the index reaches
  the length of that list; on a list that grows as fast as it is read it does not end, and
  the value is then \<open>None\<close>.
\<close>

partial_function (option) for_loop ::
  "extractor \<Rightarrow> addr \<Rightarrow> addr \<Rightarrow> addr \<Rightarrow> nat \<Rightarrow> heap \<Rightarrow> ((heap_error + unit) \<times> heap) option"
where
  "for_loop ext self preds result i h =
     (case get_list h preds of
        Inl e \<Rightarrow> Some (Inl e, h)
      | Inr xs \<Rightarrow>
          if i < length xs
          then (case loop_body ext self result (xs ! i) h of
                  (Inl e, h') \<Rightarrow> Some (Inl e, h')
                | (Inr u, h') \<Rightarrow> for_loop ext self preds result (Suc i) h')
          else Some (Inr (), h))"

declare for_loop.simps [code]

text \<open>
  The method: \<^verbatim>\<open>result = []\<close>, the loop, \<^verbatim>\<open>return result\<close>. \<open>self\<close> and \<open>preds\<close> are
  references. The value is the exception or the reference of the returned list, with the
  store after the call.
\<close>

definition extract_preds_method ::
  "extractor \<Rightarrow> addr \<Rightarrow> addr \<Rightarrow> heap \<Rightarrow> ((heap_error + addr) \<times> heap) option"
where
  "extract_preds_method ext self preds h =
     (case new_list h of
        (result, h1) \<Rightarrow>
          (case for_loop ext self preds result 0 h1 of
             None \<Rightarrow> None
           | Some (Inl e, h2) \<Rightarrow> Some (Inl e, h2)
           | Some (Inr u, h2) \<Rightarrow> Some (Inr result, h2)))"

text \<open>
  The lifetime of a predictor after its construction: a sequence of calls of the method on
  the same instance, each on the store that the previous call left.
\<close>

fun run_method_calls ::
  "extractor \<Rightarrow> addr \<Rightarrow> addr list \<Rightarrow> heap \<Rightarrow> ((heap_error + addr) list \<times> heap) option"
where
  "run_method_calls ext self [] h = Some ([], h)"
| "run_method_calls ext self (preds # rest) h =
     (case extract_preds_method ext self preds h of
        None \<Rightarrow> None
      | Some (outcome, h1) \<Rightarrow>
          (case run_method_calls ext self rest h1 of
             None \<Rightarrow> None
           | Some (outcomes, h2) \<Rightarrow> Some (outcome # outcomes, h2)))"

text \<open>
  The state of the predictor behind a reference: its four attributes, the class list read
  through its reference. \<open>None\<close> when the reference does not hold a predictor.
\<close>

definition predictor_at :: "heap \<Rightarrow> addr \<Rightarrow> predictor option" where
  "predictor_at h a =
     (case get_attrs h a of
        Inl _ \<Rightarrow> None
      | Inr attrs \<Rightarrow>
          (case classes_ref attrs of
             None \<Rightarrow>
               Some \<lparr>classes = None, begin_marker = begin_marker_attr attrs,
                 end_marker = end_marker_attr attrs,
                 extraction_description = extraction_description_attr attrs\<rparr>
           | Some r \<Rightarrow>
               (case get_list h r of
                  Inl _ \<Rightarrow> None
                | Inr cs \<Rightarrow>
                    Some \<lparr>classes = Some cs, begin_marker = begin_marker_attr attrs,
                      end_marker = end_marker_attr attrs,
                      extraction_description = extraction_description_attr attrs\<rparr>)))"

text \<open>What a call produced, read from a store: the exception, or the returned list.\<close>

definition outcome_value :: "heap \<Rightarrow> heap_error + addr \<Rightarrow> heap_error + string list" where
  "outcome_value h outcome = (case outcome of Inl e \<Rightarrow> Inl e | Inr r \<Rightarrow> get_list h r)"

subsection \<open>The tag-extraction function, as the specification requires it\<close>

text \<open>
  The first occurrence of \<open>marker\<close> in a text: the text before it and the text after it,
  or \<open>None\<close> when the marker does not occur.
\<close>

fun split_at_first :: "string \<Rightarrow> string \<Rightarrow> (string \<times> string) option" where
  "split_at_first marker [] = (if marker = [] then Some ([], []) else None)"
| "split_at_first marker (c # cs) =
     (if take (length marker) (c # cs) = marker
      then Some ([], drop (length marker) (c # cs))
      else (case split_at_first marker cs of
              None \<Rightarrow> None
            | Some (before, after) \<Rightarrow> Some (c # before, after)))"

text \<open>
  Modelled from the spec: \<^verbatim>\<open>extract_from_tag\<close> of \<^verbatim>\<open>promptolution.utils.formatting\<close> is
  missing from the sources. The specification requires of it: return the text strictly
  between the first occurrence of the begin marker and the first subsequent occurrence of
  the end marker; return the empty string, and never fail, if either marker is absent.
\<close>

definition extract_from_tag :: "string \<Rightarrow> string \<Rightarrow> string \<Rightarrow> string" where
  "extract_from_tag text bm em =
     (case split_at_first bm text of
        None \<Rightarrow> []
      | Some (_, rest) \<Rightarrow>
          (case split_at_first em rest of
             None \<Rightarrow> []
           | Some (span, _) \<Rightarrow> span))"

definition spec_extractor :: extractor where
  "spec_extractor text bm em = Inr (extract_from_tag text bm em)"

text \<open>The base-class initialiser that leaves the object as it is.\<close>

definition plain_super_init :: "predictor \<Rightarrow> error + predictor" where
  "plain_super_init self = Inr self"

subsection \<open>Example configurations\<close>

text \<open>The closed-mode predictor of the specification's examples, with the default markers.\<close>

definition sentiment_predictor :: predictor where
  "sentiment_predictor =
     \<lparr>classes = Some [''negative'', ''positive''],
      begin_marker = default_begin_marker, end_marker = default_end_marker,
      extraction_description =
        closed_description [''negative'', ''positive''] default_begin_marker default_end_marker\<rparr>"

definition sentiment_batch :: "string list" where
  "sentiment_batch =
     [''<final_answer>Positive</final_answer>'', ''garbage'',
      ''<final_answer>NEGATIVE</final_answer>'']"

text \<open>The open-mode predictor: no class list.\<close>

definition open_predictor :: predictor where
  "open_predictor =
     \<lparr>classes = None,
      begin_marker = default_begin_marker, end_marker = default_end_marker,
      extraction_description = open_description default_begin_marker default_end_marker\<rparr>"

definition open_batch :: "string list" where
  "open_batch = [''<final_answer>Cat</final_answer>'', ''no markers here'']"

text \<open>A predictor whose class list is empty, and one with a whitespace-padded class.\<close>

definition empty_predictor :: predictor where
  "empty_predictor =
     \<lparr>classes = Some [],
      begin_marker = default_begin_marker, end_marker = default_end_marker,
      extraction_description = closed_description [] default_begin_marker default_end_marker\<rparr>"

definition padded_predictor :: predictor where
  "padded_predictor =
     \<lparr>classes = Some [''negative'', ''positive'', '' positive ''],
      begin_marker = default_begin_marker, end_marker = default_end_marker,
      extraction_description =
        closed_description [''negative'', ''positive'', '' positive '']
          default_begin_marker default_end_marker\<rparr>"

text \<open>
  A store with the class list at reference 0, the closed-mode predictor at reference 1 and
  a batch at reference 2.
\<close>

definition sentiment_heap :: heap where
  "sentiment_heap =
     [ListObj [''negative'', ''positive''],
      Instance \<lparr>classes_ref = Some 0, begin_marker_attr = default_begin_marker,
        end_marker_attr = default_end_marker,
        extraction_description_attr =
          closed_description [''negative'', ''positive''] default_begin_marker default_end_marker\<rparr>,
      ListObj sentiment_batch]"

section \<open>Basic facts\<close>

subsection \<open>Case conversion\<close>

lemma lower_char_not_upper: "\<not> is_ascii_upper (lower_char c)"
  by (cases "is_ascii_upper c")
     (simp_all add: lower_char_def is_ascii_upper_def less_eq_char_def)

lemma lower_char_idem: "lower_char (lower_char c) = lower_char c"
  using lower_char_not_upper [of c] by (simp add: lower_char_def)

lemma str_lower_idem: "str_lower (str_lower s) = str_lower s"
  by (simp add: str_lower_def lower_char_idem)

lemma str_lower_no_upper: "list_all (\<lambda>c. \<not> is_ascii_upper c) s \<Longrightarrow> str_lower s = s"
  by (induction s) (simp_all add: str_lower_def lower_char_def)

lemma str_islower_lower: "str_islower s \<Longrightarrow> str_lower s = s"
  by (simp add: str_islower_def str_lower_no_upper)

lemma str_islower_not_Nil: "\<not> str_islower []"
  by (simp add: str_islower_def)

lemma uncased_not_islower:
  assumes "list_all (\<lambda>ch. \<not> is_cased ch) c"
  shows "\<not> str_islower c"
  using assms by (auto simp: str_islower_def is_cased_def list_all_iff list_ex_iff)

subsection \<open>Normalisation of one span\<close>

lemma getitem0_Inr: "getitem0 xs = Inr x \<longleftrightarrow> xs \<noteq> [] \<and> x = hd xs"
  by (cases xs) (auto simp: getitem0_def)

lemma normalize_label_open:
  "classes self = None \<Longrightarrow> normalize_label self s = Inr (str_lower s)"
  by (simp add: normalize_label_def)

lemma normalize_label_closed:
  "classes self = Some cs \<Longrightarrow>
   normalize_label self s = (if str_lower s \<in> set cs then Inr (str_lower s) else getitem0 cs)"
  by (simp add: normalize_label_def)

lemma normalize_label_in_classes:
  assumes "classes self = Some cs" and "normalize_label self s = Inr l"
  shows "l \<in> set cs"
  using assms by (auto simp: normalize_label_closed getitem0_Inr split: if_splits)

lemma valid_config_normalizes:
  assumes "valid_config self"
  shows "\<exists>l. normalize_label self s = Inr l"
proof (cases "classes self")
  case None
  then show ?thesis by (simp add: normalize_label_open)
next
  case (Some cs)
  with assms have "cs \<noteq> []" by (simp add: valid_config_def)
  then have "getitem0 cs = Inr (hd cs)" by (simp add: getitem0_Inr)
  with Some show ?thesis by (simp add: normalize_label_closed)
qed

lemma extract_label_Inr:
  "extract_label ext self p = Inr l \<longleftrightarrow>
     (\<exists>span. ext p (begin_marker self) (end_marker self) = Inr span \<and>
        normalize_label self span = Inr l)"
  by (auto simp: extract_label_def split: sum.splits)

subsection \<open>The loop\<close>

text \<open>
  The loop returns exactly when every item yields a label, and then it returns the labels
  in the order of the items, after what the accumulator already held.
\<close>

lemma extract_loop_Inr_iff:
  "extract_loop ext self preds acc = Inr out \<longleftrightarrow>
     (\<exists>labels. out = acc @ labels \<and>
        list_all2 (\<lambda>p l. extract_label ext self p = Inr l) preds labels)"
proof (induction preds arbitrary: acc)
  case Nil
  show ?case by auto
next
  case (Cons p ps)
  show ?case
  proof (cases "extract_label ext self p")
    case (Inl e)
    then show ?thesis by (simp add: list_all2_Cons1)
  next
    case (Inr l)
    then show ?thesis by (auto simp: Cons.IH list_all2_Cons1)
  qed
qed

lemma extract_preds_Inr_iff:
  "extract_preds ext self preds = Inr out \<longleftrightarrow>
     list_all2 (\<lambda>p l. extract_label ext self p = Inr l) preds out"
  by (simp add: extract_preds_def extract_loop_Inr_iff)

lemma extract_preds_nth:
  assumes "extract_preds ext self preds = Inr out" and "i < length preds"
  shows "extract_label ext self (preds ! i) = Inr (out ! i)"
  using assms by (simp add: extract_preds_Inr_iff list_all2_conv_all_nth)

lemma extract_preds_length:
  assumes "extract_preds ext self preds = Inr out"
  shows "length out = length preds"
  using assms by (simp add: extract_preds_Inr_iff list_all2_conv_all_nth)

lemma extract_preds_returns:
  assumes "\<forall>p\<in>set preds. \<exists>l. extract_label ext self p = Inr l"
  shows "\<exists>out. extract_preds ext self preds = Inr out"
proof -
  from assms have "\<exists>out. list_all2 (\<lambda>p l. extract_label ext self p = Inr l) preds out"
  proof (induction preds)
    case Nil
    show ?case by simp
  next
    case (Cons p ps)
    then obtain l out where "extract_label ext self p = Inr l"
      and "list_all2 (\<lambda>p l. extract_label ext self p = Inr l) ps out"
      by auto
    then have "list_all2 (\<lambda>p l. extract_label ext self p = Inr l) (p # ps) (l # out)"
      by simp
    then show ?case by blast
  qed
  then show ?thesis by (simp add: extract_preds_Inr_iff)
qed

subsection \<open>The method on the object store\<close>

lemma get_list_less: "get_list h a = Inr xs \<Longrightarrow> a < length h"
  by (auto simp: get_list_def split: if_splits)

lemma get_attrs_less: "get_attrs h a = Inr attrs \<Longrightarrow> a < length h"
  by (auto simp: get_attrs_def split: if_splits)

lemma get_list_append: "a < length h \<Longrightarrow> get_list (h @ hs) a = get_list h a"
  by (simp add: get_list_def nth_append)

lemma get_attrs_append: "a < length h \<Longrightarrow> get_attrs (h @ hs) a = get_attrs h a"
  by (simp add: get_attrs_def nth_append)

lemma get_list_fresh: "get_list (h @ ListObj xs # hs) (length h) = Inr xs"
  by (simp add: get_list_def)

lemma list_append_fresh:
  "list_append (h @ [ListObj xs]) (length h) x = Inr (h @ [ListObj (xs @ [x])])"
  by (simp add: list_append_def get_list_fresh)

lemma predictor_at_append:
  assumes "predictor_at h a = Some p"
  shows "predictor_at (h @ hs) a = Some p"
proof -
  from assms obtain attrs where attrs: "get_attrs h a = Inr attrs"
    by (auto simp: predictor_at_def split: sum.splits)
  then have a: "get_attrs (h @ hs) a = Inr attrs"
    by (simp add: get_attrs_append get_attrs_less)
  show ?thesis
  proof (cases "classes_ref attrs")
    case None
    with assms attrs a show ?thesis by (simp add: predictor_at_def)
  next
    case (Some r)
    with assms attrs obtain cs where cs: "get_list h r = Inr cs"
      by (auto simp: predictor_at_def split: sum.splits)
    then have "get_list (h @ hs) r = Inr cs"
      by (simp add: get_list_append get_list_less)
    with assms attrs a Some cs show ?thesis by (simp add: predictor_at_def)
  qed
qed

lemma class_fallback_fresh:
  assumes "predictor_at h self = Some p"
  shows "class_fallback (h @ hs) self (str_lower extracted) = raised (normalize_label p extracted)"
proof -
  from assms obtain attrs where attrs: "get_attrs h self = Inr attrs"
    by (auto simp: predictor_at_def split: sum.splits)
  then have a: "get_attrs (h @ hs) self = Inr attrs"
    by (simp add: get_attrs_append get_attrs_less)
  show ?thesis
  proof (cases "classes_ref attrs")
    case None
    with assms attrs have "classes p = None"
      by (auto simp: predictor_at_def)
    with a None show ?thesis
      by (simp add: class_fallback_def normalize_label_def raised_def)
  next
    case (Some r)
    with assms attrs obtain cs where cs: "get_list h r = Inr cs" and p: "classes p = Some cs"
      by (auto simp: predictor_at_def split: sum.splits)
    from cs have "get_list (h @ hs) r = Inr cs"
      by (simp add: get_list_append get_list_less)
    with a Some p show ?thesis
      by (simp add: class_fallback_def normalize_label_def raised_def)
  qed
qed

lemma loop_body_fresh:
  assumes "predictor_at h self = Some p"
  shows "loop_body ext self (length h) pred (h @ [ListObj acc]) =
           (case extract_label ext p pred of
              Inl e \<Rightarrow> (Inl (Raised e), h @ [ListObj acc])
            | Inr label \<Rightarrow> (Inr (), h @ [ListObj (acc @ [label])]))"
proof -
  from assms obtain attrs where attrs: "get_attrs h self = Inr attrs"
    and bm: "begin_marker p = begin_marker_attr attrs"
    and em: "end_marker p = end_marker_attr attrs"
    by (auto simp: predictor_at_def split: sum.splits option.splits)
  from attrs have a: "get_attrs (h @ [ListObj acc]) self = Inr attrs"
    by (simp add: get_attrs_append get_attrs_less)
  show ?thesis
  proof (cases "ext pred (begin_marker_attr attrs) (end_marker_attr attrs)")
    case (Inl e)
    with a bm em show ?thesis
      by (simp add: loop_body_def extract_label_def)
  next
    case (Inr extracted)
    with a bm em show ?thesis
      by (simp add: loop_body_def extract_label_def class_fallback_fresh [OF assms]
          list_append_fresh raised_def split: sum.splits)
  qed
qed

lemma for_loop_fresh:
  assumes "predictor_at h self = Some p" and "get_list h preds = Inr xs" and "i \<le> length xs"
  shows "\<exists>labels.
           for_loop ext self preds (length h) i (h @ [ListObj acc]) =
             Some (case extract_loop ext p (drop i xs) acc of
                     Inl e \<Rightarrow> Inl (Raised e)
                   | Inr out \<Rightarrow> Inr (),
                   h @ [ListObj labels]) \<and>
           (\<forall>out. extract_loop ext p (drop i xs) acc = Inr out \<longrightarrow> labels = out)"
  using assms(3)
proof (induction "length xs - i" arbitrary: i acc)
  case 0
  then have i: "i = length xs" by simp
  from assms(2) have "get_list (h @ [ListObj acc]) preds = Inr xs"
    by (simp add: get_list_append get_list_less)
  with i have "for_loop ext self preds (length h) i (h @ [ListObj acc]) =
      Some (Inr (), h @ [ListObj acc])"
    by (subst for_loop.simps) simp
  with i show ?case by simp
next
  case (Suc n)
  then have i: "i < length xs" and n: "n = length xs - Suc i" and le: "Suc i \<le> length xs"
    by simp_all
  from assms(2) have xs: "get_list (h @ [ListObj acc]) preds = Inr xs"
    by (simp add: get_list_append get_list_less)
  from i have drop: "drop i xs = xs ! i # drop (Suc i) xs"
    by (simp add: Cons_nth_drop_Suc)
  show ?case
  proof (cases "extract_label ext p (xs ! i)")
    case (Inl e)
    with xs i have "for_loop ext self preds (length h) i (h @ [ListObj acc]) =
        Some (Inl (Raised e), h @ [ListObj acc])"
      by (subst for_loop.simps) (simp add: loop_body_fresh [OF assms(1)])
    with Inl drop show ?thesis by simp
  next
    case (Inr label)
    with xs i have step: "for_loop ext self preds (length h) i (h @ [ListObj acc]) =
        for_loop ext self preds (length h) (Suc i) (h @ [ListObj (acc @ [label])])"
      by (subst for_loop.simps) (simp add: loop_body_fresh [OF assms(1)])
    from Suc.hyps(1) [OF n le, of "acc @ [label]"] step Inr drop
    show ?thesis by simp
  qed
qed

lemma extract_preds_method_spec:
  assumes "predictor_at h self = Some p" and "get_list h preds = Inr xs"
  shows "\<exists>labels.
           extract_preds_method ext self preds h =
             Some (case extract_preds ext p xs of
                     Inl e \<Rightarrow> Inl (Raised e)
                   | Inr out \<Rightarrow> Inr (length h),
                   h @ [ListObj labels]) \<and>
           (\<forall>out. extract_preds ext p xs = Inr out \<longrightarrow> labels = out)"
proof -
  from for_loop_fresh [OF assms, of 0 ext "[]"]
  obtain labels where loop: "for_loop ext self preds (length h) 0 (h @ [ListObj []]) =
      Some (case extract_loop ext p xs [] of Inl e \<Rightarrow> Inl (Raised e) | Inr out \<Rightarrow> Inr (),
            h @ [ListObj labels])"
    and labels: "\<forall>out. extract_loop ext p xs [] = Inr out \<longrightarrow> labels = out"
    by auto
  from loop have "extract_preds_method ext self preds h =
      Some (case extract_preds ext p xs of Inl e \<Rightarrow> Inl (Raised e) | Inr out \<Rightarrow> Inr (length h),
            h @ [ListObj labels])"
    by (simp add: extract_preds_method_def new_list_def extract_preds_def split: sum.splits)
  with labels show ?thesis by (auto simp: extract_preds_def)
qed

lemma get_list_append_map:
  assumes "map (get_list h) bs = map Inr xss"
  shows "map (get_list (h @ hs)) bs = map Inr xss"
  using assms
proof (induction bs arbitrary: xss)
  case Nil
  then show ?case by simp
next
  case (Cons b bs)
  then obtain xs xss' where "xss = xs # xss'" and b: "get_list h b = Inr xs"
    and "map (get_list h) bs = map Inr xss'"
    by (cases xss) auto
  moreover from b have "get_list (h @ hs) b = Inr xs"
    by (simp add: get_list_append get_list_less)
  ultimately show ?case using Cons.IH by simp
qed

lemma run_method_calls_spec:
  assumes "predictor_at h self = Some p" and "map (get_list h) batches = map Inr xss"
  shows "\<exists>outcomes news.
           run_method_calls ext self batches h = Some (outcomes, h @ news) \<and>
           length news = length batches \<and>
           map (outcome_value (h @ news)) outcomes =
             map (\<lambda>xs. raised (extract_preds ext p xs)) xss"
  using assms
proof (induction batches arbitrary: h xss)
  case Nil
  then show ?case by simp
next
  case (Cons preds rest)
  from Cons.prems(2) obtain xs xss' where xss: "xss = xs # xss'"
    and xs: "get_list h preds = Inr xs"
    and rest: "map (get_list h) rest = map Inr xss'"
    by (cases xss) auto
  from extract_preds_method_spec [OF Cons.prems(1) xs, of ext]
  obtain labels where
    call: "extract_preds_method ext self preds h =
      Some (case extract_preds ext p xs of Inl e \<Rightarrow> Inl (Raised e) | Inr out \<Rightarrow> Inr (length h),
            h @ [ListObj labels])"
    and labels: "\<forall>out. extract_preds ext p xs = Inr out \<longrightarrow> labels = out"
    by blast
  let ?h1 = "h @ [ListObj labels]"
  let ?outcome = "case extract_preds ext p xs of
      Inl e \<Rightarrow> Inl (Raised e) | Inr out \<Rightarrow> Inr (length h)"
  have p1: "predictor_at ?h1 self = Some p"
    using Cons.prems(1) by (rule predictor_at_append)
  from rest have rest1: "map (get_list ?h1) rest = map Inr xss'"
    by (rule get_list_append_map)
  from Cons.IH [OF p1 rest1]
  obtain outcomes news where
    run: "run_method_calls ext self rest ?h1 = Some (outcomes, ?h1 @ news)"
    and len: "length news = length rest"
    and vals: "map (outcome_value (?h1 @ news)) outcomes =
      map (\<lambda>xs. raised (extract_preds ext p xs)) xss'"
    by blast
  have first: "outcome_value (?h1 @ news) ?outcome = raised (extract_preds ext p xs)"
  proof (cases "extract_preds ext p xs")
    case (Inl e)
    then show ?thesis by (simp add: outcome_value_def raised_def)
  next
    case (Inr out)
    with labels have "labels = out" by simp
    with Inr show ?thesis by (simp add: outcome_value_def raised_def get_list_fresh)
  qed
  from call run have "run_method_calls ext self (preds # rest) h =
      Some (?outcome # outcomes, h @ (ListObj labels # news))"
    by simp
  moreover from len have "length (ListObj labels # news) = length (preds # rest)"
    by simp
  moreover from first vals xss
  have "map (outcome_value (h @ (ListObj labels # news))) (?outcome # outcomes) =
      map (\<lambda>xs. raised (extract_preds ext p xs)) xss"
    by simp
  ultimately show ?case by blast
qed

subsection \<open>The example configurations, evaluated\<close>

lemma spec_extractor_total: "\<forall>text bm em. \<exists>span. spec_extractor text bm em = Inr span"
  by (simp add: spec_extractor_def)

lemma sentiment_fields:
  "classes sentiment_predictor = Some [''negative'', ''positive'']"
  "begin_marker sentiment_predictor = default_begin_marker"
  "end_marker sentiment_predictor = default_end_marker"
  by (simp_all add: sentiment_predictor_def)

lemma open_fields:
  "classes open_predictor = None"
  "begin_marker open_predictor = default_begin_marker"
  "end_marker open_predictor = default_end_marker"
  by (simp_all add: open_predictor_def)

lemma sentiment_valid: "valid_config sentiment_predictor"
  by code_simp

lemma init_sentiment:
  "init plain_super_init (Some [''negative'', ''positive'']) default_begin_marker default_end_marker =
     Inr sentiment_predictor"
  by code_simp

lemma sentiment_batch_labels:
  "extract_preds spec_extractor sentiment_predictor sentiment_batch =
     Inr [''positive'', ''negative'', ''negative'']"
  by code_simp

lemma open_batch_labels:
  "extract_preds spec_extractor open_predictor open_batch = Inr [''cat'', '''']"
  by code_simp

lemma no_markers_span:
  "spec_extractor ''no markers here'' default_begin_marker default_end_marker = Inr []"
  by code_simp

lemma garbage_span:
  "spec_extractor ''garbage'' default_begin_marker default_end_marker = Inr []"
  by code_simp

lemma Positive_not_islower: "\<not> str_islower ''Positive''"
  by code_simp

lemma positive_lower: "str_lower ''positive'' = ''positive''"
  by code_simp

lemma uncased_examples:
  "list_all (\<lambda>ch. \<not> is_cased ch) ''123''"
  "list_all (\<lambda>ch. \<not> is_cased ch) ''42''"
  "list_all (\<lambda>ch. \<not> is_cased ch) ''''"
  by code_simp+

lemma padded_positive_span:
  "spec_extractor ''<final_answer> Positive </final_answer>''
     (begin_marker sentiment_predictor) (end_marker sentiment_predictor) = Inr '' Positive ''"
  by code_simp

lemma padded_positive_lower: "str_lower '' Positive '' = '' '' @ ''positive'' @ '' ''"
  by code_simp

lemma space_is_space: "list_all is_space '' ''"
  by code_simp

lemma sentiment_heap_predictor: "predictor_at sentiment_heap 1 = Some sentiment_predictor"
  by code_simp

lemma sentiment_heap_batches:
  "map (get_list sentiment_heap) [2, 2] = map Inr [sentiment_batch, sentiment_batch]"
  by code_simp

lemma run_sentiment_method_twice:
  "run_method_calls spec_extractor 1 [2, 2] sentiment_heap =
     Some ([Inr 3, Inr 4],
       sentiment_heap @
         [ListObj [''positive'', ''negative'', ''negative''],
          ListObj [''positive'', ''negative'', ''negative'']])"
  by code_simp

section \<open>The label of each raw output\<close>

text \<open>
  Claim C1. When \<open>_extract_preds\<close> returns, the label at each position of the batch is
  determined as follows. The tag-extraction function has returned a span for the raw output
  at that position. With a class list configured, the label is the lowercased span if that
  is an entry of the class list, and the first entry of the class list otherwise (the class
  list is then non-empty). With no class list, the label is the lowercased span, whatever it
  is, the empty string of a failed extraction included.
\<close>

theorem extract_preds_label:
  assumes "extract_preds ext self preds = Inr out" and "i < length preds"
  shows "\<exists>span. ext (preds ! i) (begin_marker self) (end_marker self) = Inr span \<and>
           (case classes self of
              Some cs \<Rightarrow>
                cs \<noteq> [] \<and>
                out ! i = (if str_lower span \<in> set cs then str_lower span else hd cs)
            | None \<Rightarrow> out ! i = str_lower span)"
proof -
  from assms have "extract_label ext self (preds ! i) = Inr (out ! i)"
    by (rule extract_preds_nth)
  then obtain span where span: "ext (preds ! i) (begin_marker self) (end_marker self) = Inr span"
    and norm: "normalize_label self span = Inr (out ! i)"
    by (auto simp: extract_label_Inr)
  have "case classes self of
          Some cs \<Rightarrow>
            cs \<noteq> [] \<and> out ! i = (if str_lower span \<in> set cs then str_lower span else hd cs)
        | None \<Rightarrow> out ! i = str_lower span"
  proof (cases "classes self")
    case None
    with norm show ?thesis by (simp add: normalize_label_open)
  next
    case (Some cs)
    with norm show ?thesis
      by (auto simp: normalize_label_closed getitem0_Inr split: if_splits)
  qed
  with span show ?thesis by blast
qed

theorem extract_preds_label_witness:
  "extract_preds spec_extractor sentiment_predictor sentiment_batch =
     Inr [''positive'', ''negative'', ''negative''] \<and>
   (\<exists>span. spec_extractor (sentiment_batch ! 1) default_begin_marker default_end_marker = Inr span \<and>
      [''positive'', ''negative'', ''negative''] ! 1 =
        (if str_lower span \<in> set [''negative'', ''positive''] then str_lower span
         else hd [''negative'', ''positive''])) \<and>
   extract_preds spec_extractor open_predictor open_batch = Inr [''cat'', ''''] \<and>
   (\<exists>span. spec_extractor (open_batch ! 1) default_begin_marker default_end_marker = Inr span \<and>
      [''cat'', ''''] ! 1 = str_lower span)"
  using extract_preds_label [OF sentiment_batch_labels, of 1]
    extract_preds_label [OF open_batch_labels, of 1]
    sentiment_batch_labels open_batch_labels
  by (simp add: sentiment_fields open_fields sentiment_batch_def open_batch_def)

section \<open>Closed vocabulary\<close>

text \<open>
  Claim C2. If a non-empty class list is configured, every label in the list that
  \<open>_extract_preds\<close> returns is an entry of that class list.
\<close>

theorem extract_preds_closed_vocabulary:
  assumes "classes self = Some cs" and "cs \<noteq> []"
    and "extract_preds ext self preds = Inr out"
  shows "set out \<subseteq> set cs"
proof
  fix l assume "l \<in> set out"
  then obtain i where i: "i < length out" and l: "l = out ! i"
    by (auto simp: in_set_conv_nth)
  from assms(3) i have "extract_label ext self (preds ! i) = Inr (out ! i)"
    by (simp add: extract_preds_nth extract_preds_length)
  then obtain span where "normalize_label self span = Inr (out ! i)"
    by (auto simp: extract_label_Inr)
  with assms(1) l show "l \<in> set cs" by (simp add: normalize_label_in_classes)
qed

theorem extract_preds_closed_vocabulary_witness:
  "classes sentiment_predictor = Some [''negative'', ''positive''] \<and>
   extract_preds spec_extractor sentiment_predictor sentiment_batch =
     Inr [''positive'', ''negative'', ''negative''] \<and>
   set [''positive'', ''negative'', ''negative''] \<subseteq> set [''negative'', ''positive'']"
  using extract_preds_closed_vocabulary [OF sentiment_fields(1) _ sentiment_batch_labels]
    sentiment_batch_labels
  by (simp add: sentiment_fields)

section \<open>Positional correspondence\<close>

text \<open>
  Claim C3. \<open>_extract_preds\<close> returns a list as long as the batch, and the label at
  position \<open>i\<close> is the label of the raw output at position \<open>i\<close> alone: it is what the loop
  body yields for that one raw output, so the same raw output gets the same label at any
  position of any batch. The call returns whenever the loop body yields a label for every
  item of the batch.
\<close>

theorem extract_preds_positional:
  "((\<forall>p\<in>set preds. \<exists>l. extract_label ext self p = Inr l) \<longrightarrow>
      (\<exists>out. extract_preds ext self preds = Inr out)) \<and>
   (extract_preds ext self preds = Inr out \<longrightarrow>
      length out = length preds \<and>
      (\<forall>i<length preds. extract_label ext self (preds ! i) = Inr (out ! i)) \<and>
      (\<forall>preds' out' i j.
         extract_preds ext self preds' = Inr out' \<and> i < length preds \<and> j < length preds' \<and>
         preds' ! j = preds ! i \<longrightarrow> out' ! j = out ! i))"
proof (intro conjI impI)
  assume "\<forall>p\<in>set preds. \<exists>l. extract_label ext self p = Inr l"
  then show "\<exists>out. extract_preds ext self preds = Inr out"
    by (rule extract_preds_returns)
next
  assume "extract_preds ext self preds = Inr out"
  then show "length out = length preds"
    by (rule extract_preds_length)
next
  assume "extract_preds ext self preds = Inr out"
  then show "\<forall>i<length preds. extract_label ext self (preds ! i) = Inr (out ! i)"
    by (simp add: extract_preds_nth)
next
  assume out: "extract_preds ext self preds = Inr out"
  show "\<forall>preds' out' i j.
         extract_preds ext self preds' = Inr out' \<and> i < length preds \<and> j < length preds' \<and>
         preds' ! j = preds ! i \<longrightarrow> out' ! j = out ! i"
  proof (intro allI impI, elim conjE)
    fix preds' out' i j
    assume out': "extract_preds ext self preds' = Inr out'"
      and i: "i < length preds" and j: "j < length preds'"
      and same: "preds' ! j = preds ! i"
    have "Inr (out' ! j) = extract_label ext self (preds' ! j)"
      using extract_preds_nth [OF out' j] by simp
    also have "\<dots> = extract_label ext self (preds ! i)"
      by (simp only: same)
    also have "\<dots> = Inr (out ! i)"
      by (rule extract_preds_nth [OF out i])
    finally show "out' ! j = out ! i" by simp
  qed
qed

theorem extract_preds_positional_witness:
  "extract_preds spec_extractor sentiment_predictor sentiment_batch =
     Inr [''positive'', ''negative'', ''negative''] \<and>
   length [''positive'', ''negative'', ''negative''] = length sentiment_batch \<and>
   extract_label spec_extractor sentiment_predictor (sentiment_batch ! 0) = Inr ''positive'' \<and>
   extract_label spec_extractor sentiment_predictor (sentiment_batch ! 1) = Inr ''negative'' \<and>
   extract_label spec_extractor sentiment_predictor (sentiment_batch ! 2) = Inr ''negative''"
proof -
  let ?out = "[''positive'', ''negative'', ''negative'']"
  have len: "length sentiment_batch = 3"
    by (simp add: sentiment_batch_def)
  from extract_preds_positional [of sentiment_batch spec_extractor sentiment_predictor ?out]
    sentiment_batch_labels
  have nth: "\<forall>i<length sentiment_batch.
      extract_label spec_extractor sentiment_predictor (sentiment_batch ! i) = Inr (?out ! i)"
    by blast
  from nth len
  have "extract_label spec_extractor sentiment_predictor (sentiment_batch ! 0) = Inr (?out ! 0)"
    and "extract_label spec_extractor sentiment_predictor (sentiment_batch ! 1) = Inr (?out ! 1)"
    and "extract_label spec_extractor sentiment_predictor (sentiment_batch ! 2) = Inr (?out ! 2)"
    by simp_all
  with sentiment_batch_labels len show ?thesis by simp
qed

section \<open>Construction-time validation\<close>

text \<open>
  Claim C4. If the class list has an entry that is not lowercase, that is, one for which
  \<open>islower\<close> is false, such as \<open>Positive\<close>, the constructor raises the assertion error. It
  does so in its own body, before the base class is initialised, whatever the base class
  would do: no predictor object results, so nothing is deferred to prediction time.
\<close>

theorem init_rejects_non_lowercase:
  assumes "c \<in> set cs" and "\<not> str_islower c"
  shows "init super_init (Some cs) bm em =
           Inl (AssertionError ''Class labels should be lowercase.'')"
proof -
  from assms have "\<not> list_all str_islower cs"
    by (auto simp: list_all_iff)
  then show ?thesis by (simp add: init_def)
qed

theorem init_rejects_non_lowercase_witness:
  "''Positive'' \<in> set [''Positive'', ''negative''] \<and> \<not> str_islower ''Positive'' \<and>
   init plain_super_init (Some [''Positive'', ''negative'']) default_begin_marker default_end_marker =
     Inl (AssertionError ''Class labels should be lowercase.'')"
  using init_rejects_non_lowercase
    [of "''Positive''" "[''Positive'', ''negative'']" plain_super_init
       default_begin_marker default_end_marker]
    Positive_not_islower
  by simp

text \<open>
  An empty class list against claim C5: the list \<open>[]\<close> passes the constructor's check,
  construction completes, and the first extraction on the resulting predictor raises
  \<open>IndexError\<close>.
\<close>

theorem init_empty_classes_counterexample:
  "init plain_super_init (Some []) default_begin_marker default_end_marker = Inr empty_predictor \<and>
   extract_preds spec_extractor empty_predictor [''<final_answer>positive</final_answer>''] =
     Inl IndexError"
  by code_simp

text \<open>
  Claim C5, amended. Constructing the predictor with an empty class list raises no
  configuration error: the lowercase check holds vacuously, the constructor's own body
  completes and hands the object to the base class, and with a base class that completes
  the construction succeeds. The failure is deferred to prediction: on a predictor whose
  class list is empty, \<open>_extract_preds\<close> returns the empty list for the empty batch and
  raises \<open>IndexError\<close> for a batch whose first raw output the tag-extraction function
  returns a span for.
\<close>

theorem init_empty_classes:
  "init super_init (Some []) bm em =
     super_init \<lparr>classes = Some [], begin_marker = bm, end_marker = em,
       extraction_description = closed_description [] bm em\<rparr> \<and>
   init plain_super_init (Some []) bm em =
     Inr \<lparr>classes = Some [], begin_marker = bm, end_marker = em,
       extraction_description = closed_description [] bm em\<rparr> \<and>
   (classes self = Some [] \<longrightarrow>
      extract_preds ext self [] = Inr [] \<and>
      (\<forall>span. ext p (begin_marker self) (end_marker self) = Inr span \<longrightarrow>
         extract_preds ext self (p # ps) = Inl IndexError))"
  by (auto simp: init_def plain_super_init_def extract_preds_def extract_label_def
      normalize_label_def getitem0_def)

theorem init_empty_classes_witness:
  "init plain_super_init (Some []) default_begin_marker default_end_marker = Inr empty_predictor \<and>
   classes empty_predictor = Some [] \<and>
   extract_preds spec_extractor empty_predictor [] = Inr [] \<and>
   spec_extractor ''garbage'' default_begin_marker default_end_marker = Inr [] \<and>
   extract_preds spec_extractor empty_predictor [''garbage'', ''x''] = Inl IndexError"
  using init_empty_classes
    [of plain_super_init default_begin_marker default_end_marker empty_predictor
       spec_extractor "''garbage''" "[''x'']"]
    garbage_span
  by (simp add: empty_predictor_def plain_super_init_def)

text \<open>
  Claim C9. The constructor rejects a class list that has an entry with no cased character,
  such as \<open>123\<close>, \<open>42\<close> or the empty string. Such an entry has no uppercase letter, and
  still \<open>islower\<close> is false for it: the check is stricter than the absence of uppercase
  letters.
\<close>

theorem init_rejects_uncased:
  assumes "c \<in> set cs" and "list_all (\<lambda>ch. \<not> is_cased ch) c"
  shows "list_all (\<lambda>ch. \<not> is_ascii_upper ch) c \<and> \<not> str_islower c \<and>
         init super_init (Some cs) bm em =
           Inl (AssertionError ''Class labels should be lowercase.'')"
proof (intro conjI)
  from assms(2) show "list_all (\<lambda>ch. \<not> is_ascii_upper ch) c"
    by (auto simp: is_cased_def list_all_iff)
  from assms(2) show nl: "\<not> str_islower c"
    by (rule uncased_not_islower)
  from assms(1) nl have "\<not> list_all str_islower cs"
    by (auto simp: list_all_iff)
  then show "init super_init (Some cs) bm em =
      Inl (AssertionError ''Class labels should be lowercase.'')"
    by (simp add: init_def)
qed

theorem init_rejects_uncased_witness:
  "init plain_super_init (Some [''positive'', ''123'']) default_begin_marker default_end_marker =
     Inl (AssertionError ''Class labels should be lowercase.'') \<and>
   init plain_super_init (Some [''42'']) default_begin_marker default_end_marker =
     Inl (AssertionError ''Class labels should be lowercase.'') \<and>
   init plain_super_init (Some [''negative'', '''']) default_begin_marker default_end_marker =
     Inl (AssertionError ''Class labels should be lowercase.'') \<and>
   list_all (\<lambda>ch. \<not> is_ascii_upper ch) ''123'' \<and> \<not> str_islower ''123''"
  using
    init_rejects_uncased [of "''123''" "[''positive'', ''123'']" plain_super_init
      default_begin_marker default_end_marker]
    init_rejects_uncased [of "''42''" "[''42'']" plain_super_init
      default_begin_marker default_end_marker]
    init_rejects_uncased [of "''''" "[''negative'', '''']" plain_super_init
      default_begin_marker default_end_marker]
    uncased_examples
  by simp

section \<open>No error at prediction time\<close>

text \<open>
  Claim C6. On a validly configured predictor (no class list, or a non-empty class list of
  lowercase entries) and with a tag-extraction function that always returns,
  \<open>_extract_preds\<close> raises nothing: it returns a list as long as the batch. Each label
  is the lowercased span, or in closed mode the fallback class when that is no entry of the
  class list; a raw output from which nothing is extracted (the span is empty) gets the
  fallback class in closed mode and the empty string in open mode. A malformed item so
  never aborts the batch.
\<close>

theorem extract_preds_never_raises:
  assumes "valid_config self" and "\<forall>text bm em. \<exists>span. ext text bm em = Inr span"
  shows "\<exists>out. extract_preds ext self preds = Inr out \<and> length out = length preds \<and>
           (\<forall>i<length preds. \<exists>span.
              ext (preds ! i) (begin_marker self) (end_marker self) = Inr span \<and>
              out ! i =
                (case classes self of
                   None \<Rightarrow> str_lower span
                 | Some cs \<Rightarrow> if str_lower span \<in> set cs then str_lower span else hd cs) \<and>
              (span = [] \<longrightarrow> out ! i = (case classes self of None \<Rightarrow> [] | Some cs \<Rightarrow> hd cs)))"
proof -
  have "\<exists>l. extract_label ext self p = Inr l" for p
  proof -
    from assms(2) obtain span where "ext p (begin_marker self) (end_marker self) = Inr span"
      by blast
    moreover from assms(1) obtain l where "normalize_label self span = Inr l"
      using valid_config_normalizes by blast
    ultimately show ?thesis by (auto simp: extract_label_Inr)
  qed
  then obtain out where out: "extract_preds ext self preds = Inr out"
    using extract_preds_returns [of preds ext self] by blast
  have item: "\<exists>span.
      ext (preds ! i) (begin_marker self) (end_marker self) = Inr span \<and>
      out ! i =
        (case classes self of
           None \<Rightarrow> str_lower span
         | Some cs \<Rightarrow> if str_lower span \<in> set cs then str_lower span else hd cs) \<and>
      (span = [] \<longrightarrow> out ! i = (case classes self of None \<Rightarrow> [] | Some cs \<Rightarrow> hd cs))"
    if i: "i < length preds" for i
  proof -
    from extract_preds_nth [OF out i]
    obtain span where span: "ext (preds ! i) (begin_marker self) (end_marker self) = Inr span"
      and n: "normalize_label self span = Inr (out ! i)"
      by (auto simp: extract_label_Inr)
    have "out ! i =
        (case classes self of
           None \<Rightarrow> str_lower span
         | Some cs \<Rightarrow> if str_lower span \<in> set cs then str_lower span else hd cs) \<and>
      (span = [] \<longrightarrow> out ! i = (case classes self of None \<Rightarrow> [] | Some cs \<Rightarrow> hd cs))"
    proof (cases "classes self")
      case None
      with n show ?thesis by (auto simp: normalize_label_open str_lower_def)
    next
      case (Some cs)
      with assms(1) have "cs \<noteq> []" and "list_all str_islower cs"
        by (simp_all add: valid_config_def)
      then have "[] \<notin> set cs"
        using str_islower_not_Nil by (auto simp: list_all_iff)
      with n Some show ?thesis
        by (auto simp: normalize_label_closed str_lower_def getitem0_Inr split: if_splits)
    qed
    with span show ?thesis by blast
  qed
  from out item extract_preds_length [OF out] show ?thesis by blast
qed

theorem extract_preds_never_raises_witness:
  "valid_config sentiment_predictor \<and>
   (\<forall>text bm em. \<exists>span. spec_extractor text bm em = Inr span) \<and>
   (\<exists>out. extract_preds spec_extractor sentiment_predictor [''no markers here''] = Inr out \<and>
      length out = 1 \<and> out ! 0 = ''negative'')"
proof -
  from extract_preds_never_raises [OF sentiment_valid spec_extractor_total, of "[''no markers here'']"]
  obtain out where out: "extract_preds spec_extractor sentiment_predictor [''no markers here''] = Inr out"
    and len: "length out = 1"
    and item: "\<forall>i<1. \<exists>span. spec_extractor ([''no markers here''] ! i) (begin_marker sentiment_predictor)
         (end_marker sentiment_predictor) = Inr span \<and>
       out ! i = (case classes sentiment_predictor of None \<Rightarrow> str_lower span
          | Some cs \<Rightarrow> if str_lower span \<in> set cs then str_lower span else hd cs) \<and>
       (span = [] \<longrightarrow> out ! i = (case classes sentiment_predictor of None \<Rightarrow> [] | Some cs \<Rightarrow> hd cs))"
    by auto
  from item no_markers_span have "out ! 0 = ''negative''"
    by (auto simp: sentiment_fields)
  with out len sentiment_valid spec_extractor_total show ?thesis by blast
qed

section \<open>Idempotence of the normalisation\<close>

text \<open>
  Claim C7. The normalisation step (lowercase, then fallback for a non-member) returns a
  string unchanged when that string is already lowercase and already an entry of the
  configured class list.
\<close>

theorem normalize_label_idempotent:
  assumes "classes self = Some cs" and "s \<in> set cs"
    and "str_lower s = s \<or> str_islower s"
  shows "normalize_label self s = Inr s"
proof -
  from assms(3) have "str_lower s = s"
    by (auto simp: str_islower_lower)
  with assms(1,2) show ?thesis
    by (simp add: normalize_label_closed)
qed

theorem normalize_label_idempotent_witness:
  "classes sentiment_predictor = Some [''negative'', ''positive''] \<and>
   ''positive'' \<in> set [''negative'', ''positive''] \<and>
   str_lower ''positive'' = ''positive'' \<and>
   normalize_label sentiment_predictor ''positive'' = Inr ''positive''"
  using normalize_label_idempotent [OF sentiment_fields(1), of "''positive''"]
    positive_lower sentiment_fields(1)
  by simp

section \<open>The predictor is not changed by a call\<close>

text \<open>
  Claim C8. A call of \<open>_extract_preds\<close> has no effect but the list it returns. Over any
  sequence of calls on a predictor instance, every call returns or raises (none runs
  forever); every object that was in the store before the calls is afterwards as it was,
  the instance, its class list and the batches among them, since the calls only add new
  list objects; so the class list, the two markers and the description of the predictor
  keep the values they had when construction finished. What each call produces is what
  the method computes from that state and the content of its batch alone, so calls on the
  same input produce the same output.
\<close>

theorem extract_preds_frame:
  assumes "predictor_at h self = Some p" and "map (get_list h) batches = map Inr xss"
  shows "\<exists>outcomes h'.
           run_method_calls ext self batches h = Some (outcomes, h') \<and>
           take (length h) h' = h \<and>
           predictor_at h' self = Some p \<and>
           map (get_list h') batches = map Inr xss \<and>
           map (outcome_value h') outcomes = map (\<lambda>xs. raised (extract_preds ext p xs)) xss \<and>
           (\<forall>j k. j < length batches \<and> k < length batches \<and> xss ! j = xss ! k \<longrightarrow>
              outcome_value h' (outcomes ! j) = outcome_value h' (outcomes ! k))"
proof -
  from run_method_calls_spec [OF assms, of ext]
  obtain outcomes news where
    run: "run_method_calls ext self batches h = Some (outcomes, h @ news)"
    and vals: "map (outcome_value (h @ news)) outcomes =
      map (\<lambda>xs. raised (extract_preds ext p xs)) xss"
    by blast
  have frame: "take (length h) (h @ news) = h"
    by simp
  have pred: "predictor_at (h @ news) self = Some p"
    using assms(1) by (rule predictor_at_append)
  from assms(2) have batches: "map (get_list (h @ news)) batches = map Inr xss"
    by (rule get_list_append_map)
  from assms(2) have lb: "length batches = length xss"
    by (metis length_map)
  from vals have lo: "length outcomes = length xss"
    by (metis length_map)
  have same: "outcome_value (h @ news) (outcomes ! j) = outcome_value (h @ news) (outcomes ! k)"
    if "j < length batches" and "k < length batches" and "xss ! j = xss ! k" for j k
  proof -
    from that lb lo have "outcome_value (h @ news) (outcomes ! j) =
        map (outcome_value (h @ news)) outcomes ! j"
      and "outcome_value (h @ news) (outcomes ! k) =
        map (outcome_value (h @ news)) outcomes ! k"
      by simp_all
    with vals that lb show ?thesis by simp
  qed
  from run frame pred batches vals same show ?thesis by blast
qed

theorem extract_preds_frame_witness:
  "init plain_super_init (Some [''negative'', ''positive'']) default_begin_marker default_end_marker =
     Inr sentiment_predictor \<and>
   predictor_at sentiment_heap 1 = Some sentiment_predictor \<and>
   map (get_list sentiment_heap) [2, 2] = map Inr [sentiment_batch, sentiment_batch] \<and>
   (\<exists>h'. run_method_calls spec_extractor 1 [2, 2] sentiment_heap = Some ([Inr 3, Inr 4], h') \<and>
      take (length sentiment_heap) h' = sentiment_heap \<and>
      predictor_at h' 1 = Some sentiment_predictor \<and>
      outcome_value h' (Inr 3) = Inr [''positive'', ''negative'', ''negative''] \<and>
      outcome_value h' (Inr 4) = Inr [''positive'', ''negative'', ''negative''])"
proof -
  from extract_preds_frame [OF sentiment_heap_predictor sentiment_heap_batches, of spec_extractor]
    run_sentiment_method_twice
  obtain h' where "run_method_calls spec_extractor 1 [2, 2] sentiment_heap = Some ([Inr 3, Inr 4], h')"
    and "take (length sentiment_heap) h' = sentiment_heap"
    and "predictor_at h' 1 = Some sentiment_predictor"
    and "map (outcome_value h') [Inr 3, Inr 4] =
      map (\<lambda>xs. raised (extract_preds spec_extractor sentiment_predictor xs))
        [sentiment_batch, sentiment_batch]"
    by auto
  then show ?thesis
    using init_sentiment sentiment_heap_predictor sentiment_heap_batches
    by (auto simp: sentiment_batch_labels raised_def)
qed

section \<open>Membership is exact string equality\<close>

text \<open>
  A whitespace-padded class against claim C10: the class list
  \<open>[negative, positive,  positive ]\<close>, whose third entry is \<open>positive\<close> between two spaces,
  passes the constructor's check. The span \<open> Positive \<close> lowercases to that third entry,
  which differs from the configured class \<open>positive\<close> by the two spaces only; it is a member
  and is kept, not replaced by the first class.
\<close>

theorem padded_span_counterexample:
  "init plain_super_init (Some [''negative'', ''positive'', '' positive ''])
     default_begin_marker default_end_marker = Inr padded_predictor \<and>
   valid_config padded_predictor \<and>
   spec_extractor ''<final_answer> Positive </final_answer>''
     default_begin_marker default_end_marker = Inr '' Positive '' \<and>
   str_lower '' Positive '' = '' '' @ ''positive'' @ '' '' \<and>
   list_all is_space '' '' \<and>
   extract_preds spec_extractor padded_predictor [''<final_answer> Positive </final_answer>''] =
     Inr ['' positive ''] \<and>
   '' positive '' \<noteq> ''negative''"
  by code_simp

text \<open>
  Claim C10, amended. Class membership is decided by exact string equality, with no
  trimming: a span whose lowercased form is a configured class with leading or trailing
  whitespace added is never equal to that class, and its label is the first class of the
  list unless the padded form is itself, character for character, an entry of the class
  list, in which case it is kept.
\<close>

theorem padded_span_exact_membership:
  assumes "classes self = Some cs" and "c \<in> set cs"
    and "ext pred (begin_marker self) (end_marker self) = Inr span"
    and "str_lower span = ws1 @ c @ ws2"
    and "list_all is_space ws1" and "list_all is_space ws2" and "ws1 @ ws2 \<noteq> []"
  shows "str_lower span \<noteq> c \<and>
         extract_label ext self pred =
           Inr (if str_lower span \<in> set cs then str_lower span else hd cs)"
proof
  from assms(4) have "length (str_lower span) = length ws1 + length c + length ws2"
    by simp
  moreover from assms(7) have "0 < length ws1 + length ws2"
    by (cases ws1) simp_all
  ultimately have "length (str_lower span) \<noteq> length c"
    by simp
  then show "str_lower span \<noteq> c" by auto
  from assms(2) have "cs \<noteq> []" by auto
  then have "getitem0 cs = Inr (hd cs)" by (simp add: getitem0_Inr)
  with assms(1,3)
  show "extract_label ext self pred =
      Inr (if str_lower span \<in> set cs then str_lower span else hd cs)"
    by (simp add: extract_label_def normalize_label_closed)
qed

theorem padded_span_exact_membership_witness:
  "classes sentiment_predictor = Some [''negative'', ''positive''] \<and>
   spec_extractor ''<final_answer> Positive </final_answer>''
     (begin_marker sentiment_predictor) (end_marker sentiment_predictor) = Inr '' Positive '' \<and>
   str_lower '' Positive '' = '' '' @ ''positive'' @ '' '' \<and>
   list_all is_space '' '' \<and>
   str_lower '' Positive '' \<noteq> ''positive'' \<and>
   extract_label spec_extractor sentiment_predictor ''<final_answer> Positive </final_answer>'' =
     Inr ''negative''"
proof -
  have "''positive'' \<in> set [''negative'', ''positive'']" and "'' '' @ '' '' \<noteq> []"
    by simp_all
  with padded_span_exact_membership
    [of sentiment_predictor "[''negative'', ''positive'']" "''positive''" spec_extractor
       "''<final_answer> Positive </final_answer>''" "'' Positive ''" "'' ''" "'' ''"]
    sentiment_fields(1) padded_positive_span padded_positive_lower space_is_space
  have "str_lower '' Positive '' \<noteq> ''positive''"
    and "extract_label spec_extractor sentiment_predictor ''<final_answer> Positive </final_answer>'' =
      Inr (if str_lower '' Positive '' \<in> set [''negative'', ''positive'']
           then str_lower '' Positive '' else hd [''negative'', ''positive''])"
    by blast+
  then show ?thesis
    using sentiment_fields(1) padded_positive_span padded_positive_lower space_is_space
    by simp
qed

end
